theory Spec2Isabelle
  imports Complex_Main
begin

section \<open>Data model\<close>

text \<open>
  The paginator of \<^verbatim>\<open>src/Paginator.ts\<close> is embedded with explicit state passing.
  JavaScript numbers are integer-valued here (\<^typ>\<open>int\<close>): page numbers, limits and
  counts within the safe-integer range, where the double arithmetic of the source is exact.
\<close>

subsection \<open>Pipeline stages, documents, errors\<close>

text \<open>
  The projection option has the unconstrained type \<^verbatim>\<open>T\<close>: its value is an object (a
  field descriptor \<open>'t\<close>) or a primitive. The source tests it for truthiness, and of these
  values the number \<^verbatim>\<open>0\<close>, the empty string, \<^verbatim>\<open>false\<close> and \<^verbatim>\<open>null\<close> are falsy.
\<close>

datatype 't jsvalue = JObject 't | JNumber int | JString string | JBoolean bool | JNull

fun truthy :: "'t jsvalue \<Rightarrow> bool" where
  "truthy (JObject x) = True"
| "truthy (JNumber n) = (n \<noteq> 0)"
| "truthy (JString s) = (s \<noteq> [])"
| "truthy (JBoolean b) = b"
| "truthy JNull = False"

text \<open>
  A stage descriptor \<^verbatim>\<open>{ $skip: n }\<close>, \<^verbatim>\<open>{ $limit: n }\<close>, \<^verbatim>\<open>{ $project: p }\<close>,
  \<^verbatim>\<open>{ $count: name }\<close>; every other stage of the caller is opaque (\<open>Custom\<close>).
\<close>

datatype ('t, 'o) stage =
  Skip int | Limit int | Project "'t jsvalue" | Count string | Custom 'o

text \<open>
  A document maps field names to values. The paginator reads a single field, the number
  under \<^verbatim>\<open>totalCount\<close>, so field values are numbers; reading a field that a document
  does not have gives \<^verbatim>\<open>undefined\<close>.
\<close>

type_synonym document = "(string \<times> int) list"

datatype jsnumber = Num int | Undefined

definition get_field :: "document \<Rightarrow> string \<Rightarrow> jsnumber" where
  "get_field d k = (case map_of d k of None \<Rightarrow> Undefined | Some n \<Rightarrow> Num n)"

text \<open>\<^verbatim>\<open>x > 0\<close> on a value that is a number or \<^verbatim>\<open>undefined\<close> (which compares false).\<close>

fun gt0 :: "jsnumber \<Rightarrow> bool" where
  "gt0 (Num n) = (0 < n)"
| "gt0 Undefined = False"

text \<open>
  \<^verbatim>\<open>TypeError\<close> is what destructuring \<^verbatim>\<open>undefined\<close> throws; \<open>QueryError\<close> is a
  rejection of the data store, which the paginator passes on.
\<close>

datatype error = TypeError | QueryError string

subsection \<open>The store: arrays, the collection's state, the executed queries\<close>

text \<open>
  Pipeline arrays are mutable objects, referred to by address. The collection is an
  external collaborator: a state transformer that answers a pipeline with a rejection or a
  sequence of documents; it reads the pipeline it is given and does not write to it.
  \<open>executed\<close> records the pipelines handed to \<^verbatim>\<open>collection.aggregate\<close>, in call
  order.
\<close>

type_synonym addr = nat

type_synonym ('t, 'o, 'db) Collection =
  "'db \<Rightarrow> ('t, 'o) stage list \<Rightarrow> (error + document list) \<times> 'db"

record ('t, 'o, 'db) world =
  arrays :: "addr \<Rightarrow> ('t, 'o) stage list"
  next_addr :: addr
  db :: 'db
  executed :: "('t, 'o) stage list list"

text \<open>An array literal \<^verbatim>\<open>[...]\<close> allocates a fresh array.\<close>

definition new_array ::
  "('t, 'o) stage list \<Rightarrow> ('t, 'o, 'db) world \<Rightarrow> addr \<times> ('t, 'o, 'db) world" where
  "new_array xs w =
     (next_addr w, w\<lparr>arrays := (arrays w)(next_addr w := xs), next_addr := Suc (next_addr w)\<rparr>)"

text \<open>\<^verbatim>\<open>a.push(x)\<close> updates the array at \<open>a\<close> in place.\<close>

definition push :: "addr \<Rightarrow> ('t, 'o) stage \<Rightarrow> ('t, 'o, 'db) world \<Rightarrow> ('t, 'o, 'db) world" where
  "push a x w = w\<lparr>arrays := (arrays w)(a := arrays w a @ [x])\<rparr>"

text \<open>\<^verbatim>\<open>await collection.aggregate(a).toArray()\<close>\<close>

definition aggregate_toArray ::
  "('t, 'o, 'db) Collection \<Rightarrow> addr \<Rightarrow> ('t, 'o, 'db) world \<Rightarrow>
     (error + document list) \<times> ('t, 'o, 'db) world" where
  "aggregate_toArray c a w =
     (case c (db w) (arrays w a) of
        (res, d') \<Rightarrow> (res, w\<lparr>db := d', executed := executed w @ [arrays w a]\<rparr>))"

subsection \<open>Options, paginator, result\<close>

record 't PaginationOptions =
  page :: "int option"
  limit :: "int option"
  query :: "string option"
  url :: "string option"
  project :: "'t jsvalue option"

record ('t, 'o, 'db) Paginator =
  collection :: "('t, 'o, 'db) Collection"
  aggregation :: addr
  options :: "'t PaginationOptions option"
  page :: int
  limit :: int
  query :: string
  url :: string
  project :: "'t jsvalue option"

text \<open>The fields \<^verbatim>\<open>from\<close> and \<^verbatim>\<open>to\<close> are \<open>from_index\<close> and \<open>to_index\<close>.\<close>

record Pagination =
  data :: "document list"
  first_page_url :: string
  last_page_url :: string
  next_page_url :: "string option"
  prev_page_url :: "string option"
  path :: string
  per_page :: int
  from_index :: int
  to_index :: jsnumber
  total :: jsnumber
  current_page :: int
  last_page :: int

section \<open>Operations\<close>

subsection \<open>Numbers in template strings, ceiling of a quotient\<close>

fun digits :: "nat \<Rightarrow> string" where
  "digits n = (if n < 10 then [''0123456789'' ! n]
               else digits (n div 10) @ [''0123456789'' ! (n mod 10)])"

declare digits.simps [simp del]

definition number_to_string :: "int \<Rightarrow> string" where
  "number_to_string i = (if i < 0 then ''-'' @ digits (nat (- i)) else digits (nat i))"

text \<open>\<^verbatim>\<open>Math.ceil(a / b)\<close> on integers, without leaving \<^typ>\<open>int\<close>.\<close>

definition Math_ceil_div :: "int \<Rightarrow> int \<Rightarrow> int" where
  "Math_ceil_div a b = - ((- a) div b)"

subsection \<open>Constructor\<close>

text \<open>
  \<^verbatim>\<open>options?.f ? options.f : d\<close> and \<^verbatim>\<open>if (options?.f)\<close> test truthiness: an absent
  option, \<^verbatim>\<open>0\<close>, the empty string and a falsy projection leave the default.
\<close>

definition Paginator_constructor ::
  "('t, 'o, 'db) Collection \<Rightarrow> addr \<Rightarrow> 't PaginationOptions option \<Rightarrow> ('t, 'o, 'db) Paginator" where
  "Paginator_constructor c a opts =
     \<lparr> collection = c, aggregation = a, options = opts,
       page = (case Option.bind opts PaginationOptions.page of
                 Some n \<Rightarrow> if n \<noteq> 0 then n else 1 | None \<Rightarrow> 1),
       limit = (case Option.bind opts PaginationOptions.limit of
                  Some n \<Rightarrow> if n \<noteq> 0 then n else 10 | None \<Rightarrow> 10),
       query = (case Option.bind opts PaginationOptions.query of
                  Some s \<Rightarrow> if s \<noteq> [] then s else [] | None \<Rightarrow> []),
       url = (case Option.bind opts PaginationOptions.url of
                Some s \<Rightarrow> if s \<noteq> [] then s else [] | None \<Rightarrow> []),
       project = (case Option.bind opts PaginationOptions.project of
                    Some t \<Rightarrow> if truthy t then Some t else None | None \<Rightarrow> None) \<rparr>"

subsection \<open>Queries\<close>

definition getData ::
  "('t, 'o, 'db) Paginator \<Rightarrow> ('t, 'o, 'db) world \<Rightarrow>
     (error + document list) \<times> ('t, 'o, 'db) world" where
  "getData p w =
     (case new_array (arrays w (aggregation p) @
                        [Skip ((page p - 1) * limit p), Limit (limit p)]) w of
        (a, w1) \<Rightarrow>
          let w2 = (case Option.bind (options p) PaginationOptions.project of
                      Some pr \<Rightarrow> if truthy pr then push a (Project pr) w1 else w1
                    | None \<Rightarrow> w1)
          in aggregate_toArray (collection p) a w2)"

definition getTotalInfo ::
  "('t, 'o, 'db) Paginator \<Rightarrow> ('t, 'o, 'db) world \<Rightarrow>
     (error + jsnumber) \<times> ('t, 'o, 'db) world" where
  "getTotalInfo p w =
     (case new_array (arrays w (aggregation p) @ [Count ''totalCount'']) w of
        (a, w1) \<Rightarrow>
          (case aggregate_toArray (collection p) a w1 of
             (Inl e, w2) \<Rightarrow> (Inl e, w2)
           | (Inr [], w2) \<Rightarrow> (Inl TypeError, w2)
           | (Inr (d # _), w2) \<Rightarrow> (Inr (get_field d ''totalCount''), w2)))"

subsection \<open>URLs\<close>

definition getFirstPageUrl :: "('t, 'o, 'db) Paginator \<Rightarrow> string" where
  "getFirstPageUrl p =
     url p @ ''?'' @ (if query p \<noteq> [] then query p @ ''&'' else []) @ ''page=1''"

definition getLastPageUrl :: "('t, 'o, 'db) Paginator \<Rightarrow> int \<Rightarrow> string" where
  "getLastPageUrl p lastPage =
     url p @ ''?'' @ (if query p \<noteq> [] then query p @ ''&'' else []) @ ''page='' @
     number_to_string lastPage"

definition getPreviousPageUrl :: "('t, 'o, 'db) Paginator \<Rightarrow> string option" where
  "getPreviousPageUrl p =
     (if page p = 1 then None
      else Some (url p @ ''?'' @ (if query p \<noteq> [] then query p @ ''&'' else []) @
                 ''page='' @ number_to_string (page p - 1)))"

definition getNextPageUrl :: "('t, 'o, 'db) Paginator \<Rightarrow> int \<Rightarrow> string option" where
  "getNextPageUrl p lastPage =
     (if page p = lastPage then None
      else Some (url p @ ''?'' @ (if query p \<noteq> [] then query p @ ''&'' else []) @
                 ''page='' @ number_to_string (page p + 1)))"

subsection \<open>paginate\<close>

definition paginate ::
  "('t, 'o, 'db) Paginator \<Rightarrow> ('t, 'o, 'db) world \<Rightarrow>
     (error + Pagination) \<times> ('t, 'o, 'db) world" where
  "paginate p w =
     (case getData p w of
        (Inl e, w1) \<Rightarrow> (Inl e, w1)
      | (Inr dat, w1) \<Rightarrow>
          (case (if 0 < length dat then getTotalInfo p w1 else (Inr (Num 0), w1)) of
             (Inl e, w2) \<Rightarrow> (Inl e, w2)
           | (Inr totalCount, w2) \<Rightarrow>
               let totalPages = (case totalCount of
                                   Num t \<Rightarrow> if 0 < t then Math_ceil_div t (limit p) else 1
                                 | Undefined \<Rightarrow> 1)
               in (Inr \<lparr> data = dat,
                         first_page_url = getFirstPageUrl p,
                         last_page_url = getLastPageUrl p totalPages,
                         next_page_url = getNextPageUrl p totalPages,
                         prev_page_url = getPreviousPageUrl p,
                         path = url p,
                         per_page = limit p,
                         from_index = (if gt0 totalCount
                                       then (if page p = 1 then 1
                                             else (page p - 1) * limit p + 1)
                                       else 0),
                         to_index = (if page p = totalPages then totalCount
                                     else Num (page p * limit p)),
                         total = totalCount,
                         current_page = page p,
                         last_page = totalPages \<rparr>, w2)))"

section \<open>Collections used in examples\<close>

text \<open>
  The mock of \<^verbatim>\<open>src/__tests__/Paginator.test.ts\<close>: the cursor answers with the queued
  values, one per call, whatever pipeline it is given. Once the queue is exhausted the
  mocked \<^verbatim>\<open>toArray\<close> resolves \<^verbatim>\<open>undefined\<close>, on which the caller's next step
  (\<^verbatim>\<open>data.length\<close>, or the destructuring of the count result) throws a
  \<^verbatim>\<open>TypeError\<close>: the query then ends in that error.
\<close>

definition mockCollection :: "('t, 'o, (error + document list) list) Collection" where
  "mockCollection q pl = (case q of [] \<Rightarrow> (Inl TypeError, []) | r # rs \<Rightarrow> (r, rs))"

text \<open>
  Modelled from the spec: the query engine of the data store, which is not part of the
  repository. Skip discards the first n records, Limit caps the result to n records,
  Project rewrites each record, Count yields one record holding the number of input
  records (none for an empty input); the engine rejects a negative skip and a limit
  below one. The meaning of projections and of the caller's own stages is a parameter.
\<close>

fun run_stage ::
  "('t jsvalue \<Rightarrow> document \<Rightarrow> document) \<Rightarrow>
     ('o \<Rightarrow> document list \<Rightarrow> error + document list) \<Rightarrow>
     ('t, 'o) stage \<Rightarrow> document list \<Rightarrow> error + document list" where
  "run_stage pr cu (Skip n) ds =
     (if n < 0 then Inl (QueryError ''skip'') else Inr (drop (nat n) ds))"
| "run_stage pr cu (Limit n) ds =
     (if n < 1 then Inl (QueryError ''limit'') else Inr (take (nat n) ds))"
| "run_stage pr cu (Project t) ds = Inr (map (pr t) ds)"
| "run_stage pr cu (Count k) ds = Inr (if ds = [] then [] else [[(k, int (length ds))]])"
| "run_stage pr cu (Custom s) ds = cu s ds"

fun run_pipeline ::
  "('t jsvalue \<Rightarrow> document \<Rightarrow> document) \<Rightarrow>
     ('o \<Rightarrow> document list \<Rightarrow> error + document list) \<Rightarrow>
     ('t, 'o) stage list \<Rightarrow> document list \<Rightarrow> error + document list" where
  "run_pipeline pr cu [] ds = Inr ds"
| "run_pipeline pr cu (s # ss) ds =
     (case run_stage pr cu s ds of Inl e \<Rightarrow> Inl e | Inr ds' \<Rightarrow> run_pipeline pr cu ss ds')"

definition engine ::
  "('t jsvalue \<Rightarrow> document \<Rightarrow> document) \<Rightarrow>
     ('o \<Rightarrow> document list \<Rightarrow> error + document list) \<Rightarrow>
     ('t, 'o, document list) Collection" where
  "engine pr cu docs pl = (run_pipeline pr cu pl docs, docs)"

text \<open>
  A collection honours the limit when a pipeline that ends in \<open>Limit n\<close> with \<open>n\<close> at
  least one, or in such a stage and one projection, is answered with at most \<open>n\<close>
  documents. This is a property of the collaborator, not of the paginator.
\<close>

definition honours_limit :: "('t, 'o, 'db) Collection \<Rightarrow> bool" where
  "honours_limit c \<longleftrightarrow>
     (\<forall>d pl n ds d'. 1 \<le> n \<longrightarrow> c d (pl @ [Limit n]) = (Inr ds, d') \<longrightarrow>
        int (length ds) \<le> n) \<and>
     (\<forall>d pl n t ds d'. 1 \<le> n \<longrightarrow> c d (pl @ [Limit n, Project t]) = (Inr ds, d') \<longrightarrow>
        int (length ds) \<le> n)"

text \<open>A world in which the caller's pipeline array is the only array, at address 0.\<close>

definition initial_world :: "('t, 'o) stage list \<Rightarrow> 'db \<Rightarrow> ('t, 'o, 'db) world" where
  "initial_world stages d =
     \<lparr> arrays = (\<lambda>_. [])(0 := stages), next_addr = 1, db = d, executed = [] \<rparr>"

text \<open>Options as an object literal.\<close>

definition options_of ::
  "int option \<Rightarrow> int option \<Rightarrow> string option \<Rightarrow> string option \<Rightarrow>
     't jsvalue option \<Rightarrow> 't PaginationOptions" where
  "options_of pg lm q u pr =
     \<lparr> PaginationOptions.page = pg, PaginationOptions.limit = lm,
       PaginationOptions.query = q, PaginationOptions.url = u,
       PaginationOptions.project = pr \<rparr>"

text \<open>
  An engine whose projections and custom stages leave the documents as they are, and a
  collection of five documents.
\<close>

definition plain_engine :: "(unit, string, document list) Collection" where
  "plain_engine = engine (\<lambda>t d. d) (\<lambda>s ds. Inr ds)"

definition five_docs :: "document list" where
  "five_docs = [[(''n'', 1)], [(''n'', 2)], [(''n'', 3)], [(''n'', 4)], [(''n'', 5)]]"

section \<open>Auxiliary facts\<close>

subsection \<open>Arithmetic\<close>

lemma Math_ceil_div_ceiling: "Math_ceil_div a b = \<lceil>real_of_int a / real_of_int b\<rceil>"
  unfolding Math_ceil_div_def ceiling_def
  by (metis floor_divide_of_int_eq minus_divide_left of_int_minus)

lemma Math_ceil_div_ge1: "0 < t \<Longrightarrow> 1 \<le> b \<Longrightarrow> 1 \<le> Math_ceil_div t b"
proof -
  assume t: "0 < t" and b: "1 \<le> b"
  then have "(- t) div b < 0"
    by (simp add: pos_imp_zdiv_neg_iff)
  then show ?thesis
    by (simp add: Math_ceil_div_def)
qed

lemma Math_ceil_div_le0: "t \<le> 0 \<Longrightarrow> 1 \<le> b \<Longrightarrow> Math_ceil_div t b \<le> 0"
proof -
  assume t: "t \<le> 0" and b: "1 \<le> b"
  then have "0 \<le> (- t) div b"
    by (simp add: pos_imp_zdiv_nonneg_iff)
  then show ?thesis
    by (simp add: Math_ceil_div_def)
qed

subsection \<open>Effects of the two queries\<close>

lemma getData_fst:
  "fst (getData p w) =
     fst (collection p (db w)
            (arrays w (aggregation p) @ [Skip ((page p - 1) * limit p), Limit (limit p)] @
             (case Option.bind (options p) PaginationOptions.project of
                Some t \<Rightarrow> if truthy t then [Project t] else [] | None \<Rightarrow> [])))"
  by (simp add: getData_def new_array_def push_def aggregate_toArray_def Let_def
      split: option.splits prod.splits)

lemma getData_executed:
  "executed (snd (getData p w)) =
     executed w @
       [arrays w (aggregation p) @ [Skip ((page p - 1) * limit p), Limit (limit p)] @
        (case Option.bind (options p) PaginationOptions.project of
           Some t \<Rightarrow> if truthy t then [Project t] else [] | None \<Rightarrow> [])]"
  by (simp add: getData_def new_array_def push_def aggregate_toArray_def Let_def
      split: option.splits prod.splits)

lemma getData_next_addr: "next_addr (snd (getData p w)) = Suc (next_addr w)"
  by (simp add: getData_def new_array_def push_def aggregate_toArray_def Let_def
      split: option.splits prod.splits)

lemma getData_arrays: "a < next_addr w \<Longrightarrow> arrays (snd (getData p w)) a = arrays w a"
  by (simp add: getData_def new_array_def push_def aggregate_toArray_def Let_def
      split: option.splits prod.splits)

lemma getTotalInfo_executed:
  "executed (snd (getTotalInfo p w)) =
     executed w @ [arrays w (aggregation p) @ [Count ''totalCount'']]"
  by (simp add: getTotalInfo_def new_array_def aggregate_toArray_def
      split: prod.splits sum.splits list.splits)

lemma getTotalInfo_next_addr: "next_addr (snd (getTotalInfo p w)) = Suc (next_addr w)"
  by (simp add: getTotalInfo_def new_array_def aggregate_toArray_def
      split: prod.splits sum.splits list.splits)

lemma getTotalInfo_arrays: "a < next_addr w \<Longrightarrow> arrays (snd (getTotalInfo p w)) a = arrays w a"
  by (simp add: getTotalInfo_def new_array_def aggregate_toArray_def
      split: prod.splits sum.splits list.splits)


subsection \<open>The world after paginate\<close>

text \<open>The world after paginate: that of the data query, or of the count query run after it.\<close>

lemma paginate_snd:
  "snd (paginate p w) =
     (case fst (getData p w) of
        Inr (d # ds) \<Rightarrow> snd (getTotalInfo p (snd (getData p w)))
      | _ \<Rightarrow> snd (getData p w))"
  by (simp add: paginate_def Let_def split: prod.splits sum.splits list.splits)

lemma paginate_arrays:
  assumes "a < next_addr w"
  shows "arrays (snd (paginate p w)) a = arrays w a"
proof (cases "fst (getData p w)")
  case (Inl e)
  then show ?thesis using assms by (simp add: paginate_snd getData_arrays)
next
  case (Inr ds)
  show ?thesis
  proof (cases ds)
    case Nil
    then show ?thesis using Inr assms by (simp add: paginate_snd getData_arrays)
  next
    case (Cons d ds')
    have "a < next_addr (snd (getData p w))"
      using assms by (simp add: getData_next_addr)
    then show ?thesis
      using Inr Cons assms by (simp add: paginate_snd getTotalInfo_arrays getData_arrays)
  qed
qed

lemma paginate_next_addr: "next_addr w \<le> next_addr (snd (paginate p w))"
  by (simp add: paginate_snd getData_next_addr getTotalInfo_next_addr
      split: sum.splits list.splits)

subsection \<open>Evaluation, fields of the result\<close>

lemmas run_defs =
  paginate_def getData_def getTotalInfo_def new_array_def push_def aggregate_toArray_def
  Paginator_constructor_def initial_world_def options_of_def get_field_def
  getFirstPageUrl_def getLastPageUrl_def getNextPageUrl_def getPreviousPageUrl_def
  number_to_string_def Math_ceil_div_def mockCollection_def engine_def plain_engine_def
  five_docs_def Let_def

lemma paginate_last_page:
  assumes "fst (paginate p w) = Inr r"
  shows "last_page r =
           (case total r of Num t \<Rightarrow> if 0 < t then Math_ceil_div t (limit p) else 1
            | Undefined \<Rightarrow> 1)"
  using assms
  by (auto simp: paginate_def Let_def split: prod.splits sum.splits if_splits jsnumber.splits)

lemma paginate_per_page:
  assumes "fst (paginate p w) = Inr r"
  shows "per_page r = limit p \<and> current_page r = page p \<and> path r = url p"
  using assms
  by (auto simp: paginate_def Let_def split: prod.splits sum.splits if_splits)

lemma paginate_urls:
  assumes "fst (paginate p w) = Inr r"
  shows "first_page_url r = getFirstPageUrl p \<and>
         last_page_url r = getLastPageUrl p (last_page r) \<and>
         next_page_url r = getNextPageUrl p (last_page r) \<and>
         prev_page_url r = getPreviousPageUrl p"
  using assms
  by (auto simp: paginate_def Let_def split: prod.splits sum.splits if_splits)

lemma paginate_from_to:
  assumes "fst (paginate p w) = Inr r"
  shows "from_index r =
           (if gt0 (total r) then (if page p = 1 then 1 else (page p - 1) * limit p + 1)
            else 0) \<and>
         to_index r = (if page p = last_page r then total r else Num (page p * limit p))"
  using assms
  by (auto simp: paginate_def Let_def split: prod.splits sum.splits if_splits)

lemma constructor_url:
  "url (Paginator_constructor c a opts) =
     (case Option.bind opts PaginationOptions.url of Some s \<Rightarrow> s | None \<Rightarrow> [])"
  by (simp add: Paginator_constructor_def split: option.splits)

lemma constructor_query:
  "query (Paginator_constructor c a opts) =
     (case Option.bind opts PaginationOptions.query of Some s \<Rightarrow> s | None \<Rightarrow> [])"
  by (simp add: Paginator_constructor_def split: option.splits)


subsection \<open>The modelled engine honours the limit\<close>

lemma run_pipeline_append:
  "run_pipeline pr cu (xs @ ys) ds =
     (case run_pipeline pr cu xs ds of
        Inl e \<Rightarrow> Inl e | Inr ds' \<Rightarrow> run_pipeline pr cu ys ds')"
  by (induction xs arbitrary: ds) (auto split: sum.splits)

lemma engine_honours_limit: "honours_limit (engine pr cu)"
  unfolding honours_limit_def engine_def
  by (auto simp: run_pipeline_append split: sum.splits if_splits)

section \<open>The claims\<close>

text \<open>
  C1. For every result of paginate with a limit of at least one, \<open>last_page\<close> is at least
  one, it is one when the total is zero, and whenever the total is a number it equals the
  maximum of one and the ceiling of total / limit.
\<close>

theorem last_page_is_ceiling:
  assumes "fst (paginate p w) = Inr r" and "1 \<le> limit p"
  shows "1 \<le> last_page r \<and>
         (total r = Num 0 \<longrightarrow> last_page r = 1) \<and>
         (\<forall>t. total r = Num t \<longrightarrow>
              last_page r = max 1 \<lceil>real_of_int t / real_of_int (per_page r)\<rceil>)"
proof -
  have lp: "last_page r =
           (case total r of Num t \<Rightarrow> if 0 < t then Math_ceil_div t (limit p) else 1
            | Undefined \<Rightarrow> 1)"
    using assms(1) by (rule paginate_last_page)
  have pp: "per_page r = limit p"
    using paginate_per_page [OF assms(1)] by simp
  have ge: "1 \<le> last_page r"
    using lp assms(2) by (simp add: Math_ceil_div_ge1 split: jsnumber.splits)
  have zero: "total r = Num 0 \<longrightarrow> last_page r = 1"
    using lp by simp
  have form: "last_page r = max 1 \<lceil>real_of_int t / real_of_int (per_page r)\<rceil>"
    if t: "total r = Num t" for t
  proof (cases "0 < t")
    case True
    then have "last_page r = Math_ceil_div t (limit p)"
      using lp t by simp
    moreover have "1 \<le> Math_ceil_div t (limit p)"
      using True assms(2) by (rule Math_ceil_div_ge1)
    ultimately show ?thesis
      by (simp add: pp Math_ceil_div_ceiling)
  next
    case False
    then have "last_page r = 1"
      using lp t by simp
    moreover have "Math_ceil_div t (limit p) \<le> 0"
      using False assms(2) by (simp add: Math_ceil_div_le0)
    ultimately show ?thesis
      by (simp add: pp Math_ceil_div_ceiling [symmetric])
  qed
  from ge zero form show ?thesis by blast
qed

theorem last_page_is_ceiling_witness:
  "fst (paginate (Paginator_constructor plain_engine 0
                    (Some (options_of (Some 2) (Some 2) None None None)))
          (initial_world [] five_docs)) =
     Inr \<lparr> data = [[(''n'', 3)], [(''n'', 4)]], first_page_url = ''?page=1'',
           last_page_url = ''?page=3'', next_page_url = Some ''?page=3'',
           prev_page_url = Some ''?page=1'', path = [], per_page = 2, from_index = 3,
           to_index = Num 4, total = Num 5, current_page = 2, last_page = 3 \<rparr> \<and>
   (3::int) = max 1 \<lceil>real_of_int 5 / real_of_int 2\<rceil>"
proof -
  let ?p = "Paginator_constructor plain_engine 0
              (Some (options_of (Some 2) (Some 2) None None None))"
  let ?r = "\<lparr> data = [[(''n'', 3)], [(''n'', 4)]], first_page_url = ''?page=1'',
           last_page_url = ''?page=3'', next_page_url = Some ''?page=3'',
           prev_page_url = Some ''?page=1'', path = [], per_page = 2, from_index = 3,
           to_index = Num 4, total = Num 5, current_page = 2, last_page = 3 \<rparr>"
  have run: "fst (paginate ?p (initial_world [] five_docs)) = Inr ?r"
    by (simp add: run_defs digits.simps)
  have lim: "1 \<le> limit ?p"
    by (simp add: Paginator_constructor_def options_of_def)
  from last_page_is_ceiling [OF run lim] run show ?thesis
    by simp
qed

text \<open>
  C2. When the data query returns an empty sequence, paginate runs no further query: the
  world after paginate is the world after the data query, the only pipeline executed is
  the data pipeline, and the result has total 0 and last_page 1, whatever page was asked.
\<close>

theorem empty_page_skips_count:
  assumes "fst (getData p w) = Inr []"
  shows "snd (paginate p w) = snd (getData p w) \<and>
         executed (snd (paginate p w)) =
           executed w @
             [arrays w (aggregation p) @ [Skip ((page p - 1) * limit p), Limit (limit p)] @
              (case Option.bind (options p) PaginationOptions.project of
                 Some t \<Rightarrow> if truthy t then [Project t] else [] | None \<Rightarrow> [])] \<and>
         (\<exists>r. fst (paginate p w) = Inr r \<and> data r = [] \<and> total r = Num 0 \<and>
              last_page r = 1 \<and> current_page r = page p)"
proof -
  have w: "snd (paginate p w) = snd (getData p w)"
    using assms by (simp add: paginate_snd)
  have r: "\<exists>r. fst (paginate p w) = Inr r \<and> data r = [] \<and> total r = Num 0 \<and>
              last_page r = 1 \<and> current_page r = page p"
    using assms by (cases "getData p w") (simp add: paginate_def)
  from w r show ?thesis
    by (simp add: getData_executed)
qed

theorem empty_page_skips_count_witness:
  "fst (getData (Paginator_constructor plain_engine 0
                   (Some (options_of (Some 7) (Some 2) None None None)))
          (initial_world [] five_docs)) = Inr [] \<and>
   executed (snd (paginate (Paginator_constructor plain_engine 0
                              (Some (options_of (Some 7) (Some 2) None None None)))
                    (initial_world [] five_docs))) = [[Skip 12, Limit 2]] \<and>
   (\<exists>r. fst (paginate (Paginator_constructor plain_engine 0
                              (Some (options_of (Some 7) (Some 2) None None None)))
                    (initial_world [] five_docs)) = Inr r \<and>
        total r = Num 0 \<and> last_page r = 1 \<and> current_page r = 7)"
proof -
  let ?p = "Paginator_constructor plain_engine 0
              (Some (options_of (Some 7) (Some 2) None None None))"
  let ?w = "initial_world [] five_docs :: (unit, string, document list) world"
  have empty: "fst (getData ?p ?w) = Inr []"
    by (simp add: run_defs)
  note claim = empty_page_skips_count [OF empty]
  have ex: "executed (snd (paginate ?p ?w)) = [[Skip 12, Limit 2]]"
    using claim [THEN conjunct2, THEN conjunct1]
    by (simp add: Paginator_constructor_def options_of_def initial_world_def)
  have res: "\<exists>r. fst (paginate ?p ?w) = Inr r \<and> total r = Num 0 \<and> last_page r = 1 \<and>
                 current_page r = 7"
    using claim [THEN conjunct2, THEN conjunct2]
    by (auto simp: Paginator_constructor_def options_of_def)
  from empty ex res show ?thesis
    by blast
qed

text \<open>
  C3, as stated, fails for a supplied projection that is falsy: with the projection 0 the
  data pipeline is the original stages, Skip and Limit, with no Project stage.
\<close>

theorem falsy_projection_counterexample:
  "PaginationOptions.project
     (options_of (Some 1) (Some 2) None None (Some (JNumber 0)) :: unit PaginationOptions) =
     Some (JNumber 0) \<and>
   executed (snd (paginate (Paginator_constructor plain_engine 0
                              (Some (options_of (Some 1) (Some 2) None None
                                       (Some (JNumber 0)))))
                    (initial_world [Custom ''match''] five_docs))) =
     [[Custom ''match'', Skip 0, Limit 2], [Custom ''match'', Count ''totalCount'']] \<and>
   [Custom ''match'', Skip 0, Limit 2] \<noteq>
     [Custom ''match'', Skip 0, Limit 2, Project (JNumber 0) :: (unit, string) stage]"
  by (simp add: run_defs)

text \<open>
  C3, amended. The pipelines that paginate hands to the collection are the original stages
  followed by Skip ((page - 1) * limit) and Limit limit, with a Project stage exactly when
  a truthy projection was supplied, and then, when the data is not empty, the original
  stages followed by Count ''totalCount''. The caller's array is an allocated array.
\<close>

theorem executed_pipelines:
  assumes "aggregation p < next_addr w"
  shows "executed (snd (paginate p w)) =
           executed w @
             [arrays w (aggregation p) @ [Skip ((page p - 1) * limit p), Limit (limit p)] @
              (case Option.bind (options p) PaginationOptions.project of
                 Some t \<Rightarrow> if truthy t then [Project t] else [] | None \<Rightarrow> [])] @
             (case fst (getData p w) of
                Inr (d # ds) \<Rightarrow> [arrays w (aggregation p) @ [Count ''totalCount'']]
              | _ \<Rightarrow> [])"
proof -
  have "arrays (snd (getData p w)) (aggregation p) = arrays w (aggregation p)"
    using assms by (rule getData_arrays)
  then show ?thesis
    by (simp add: paginate_snd getData_executed getTotalInfo_executed
        split: sum.splits list.splits)
qed

theorem executed_pipelines_witness:
  "aggregation (Paginator_constructor plain_engine 0
                  (Some (options_of (Some 2) (Some 2) None None (Some (JObject ()))))) <
     next_addr (initial_world [Custom ''match''] five_docs
                  :: (unit, string, document list) world) \<and>
   executed (snd (paginate (Paginator_constructor plain_engine 0
                              (Some (options_of (Some 2) (Some 2) None None (Some (JObject ())))))
                    (initial_world [Custom ''match''] five_docs))) =
     [[Custom ''match'', Skip 2, Limit 2, Project (JObject ())],
      [Custom ''match'', Count ''totalCount'']]"
proof -
  let ?p = "Paginator_constructor plain_engine 0
              (Some (options_of (Some 2) (Some 2) None None (Some (JObject ()))))"
  let ?w = "initial_world [Custom ''match''] five_docs :: (unit, string, document list) world"
  have fresh: "aggregation ?p < next_addr ?w"
    by (simp add: Paginator_constructor_def initial_world_def)
  have dat: "fst (getData ?p ?w) = Inr [[(''n'', 3)], [(''n'', 4)]]"
    by (simp add: run_defs)
  from executed_pipelines [OF fresh] fresh dat show ?thesis
    by (simp add: Paginator_constructor_def options_of_def initial_world_def)
qed

text \<open>
  C4. paginate leaves the caller's pipeline array, and every array that existed before the
  call, unchanged; a second call on the same paginator builds its data pipeline from the
  same original stages.
\<close>

theorem caller_pipeline_unchanged:
  assumes "aggregation p < next_addr w"
  shows "arrays (snd (paginate p w)) (aggregation p) = arrays w (aggregation p) \<and>
         (\<forall>a < next_addr w. arrays (snd (paginate p w)) a = arrays w a) \<and>
         (\<exists>rest. executed (snd (paginate p (snd (paginate p w)))) =
                   executed (snd (paginate p w)) @
                   (arrays w (aggregation p) @
                      [Skip ((page p - 1) * limit p), Limit (limit p)] @
                      (case Option.bind (options p) PaginationOptions.project of
                         Some t \<Rightarrow> if truthy t then [Project t] else [] | None \<Rightarrow> [])) # rest)"
proof -
  let ?w1 = "snd (paginate p w)"
  have same: "arrays ?w1 (aggregation p) = arrays w (aggregation p)"
    using assms by (rule paginate_arrays)
  have frame: "\<forall>a < next_addr w. arrays ?w1 a = arrays w a"
    by (simp add: paginate_arrays)
  have "aggregation p < next_addr ?w1"
    using assms paginate_next_addr [of w p] by simp
  then have "executed (snd (paginate p ?w1)) =
           executed ?w1 @
             [arrays ?w1 (aggregation p) @ [Skip ((page p - 1) * limit p), Limit (limit p)] @
              (case Option.bind (options p) PaginationOptions.project of
                 Some t \<Rightarrow> if truthy t then [Project t] else [] | None \<Rightarrow> [])] @
             (case fst (getData p ?w1) of
                Inr (d # ds) \<Rightarrow> [arrays ?w1 (aggregation p) @ [Count ''totalCount'']]
              | _ \<Rightarrow> [])"
    by (simp add: paginate_snd getData_executed getTotalInfo_executed getData_arrays
        split: sum.splits list.splits)
  then have again: "\<exists>rest. executed (snd (paginate p ?w1)) =
                   executed ?w1 @
                   (arrays w (aggregation p) @
                      [Skip ((page p - 1) * limit p), Limit (limit p)] @
                      (case Option.bind (options p) PaginationOptions.project of
                         Some t \<Rightarrow> if truthy t then [Project t] else [] | None \<Rightarrow> [])) # rest"
    by (simp add: same)
  from same frame again show ?thesis
    by blast
qed

theorem caller_pipeline_unchanged_witness:
  "aggregation (Paginator_constructor plain_engine 0
                  (Some (options_of (Some 2) (Some 2) None None (Some (JObject ()))))) <
     next_addr (initial_world [Custom ''sort''] five_docs
                  :: (unit, string, document list) world) \<and>
   arrays (snd (paginate (Paginator_constructor plain_engine 0
                            (Some (options_of (Some 2) (Some 2) None None (Some (JObject ())))))
                  (initial_world [Custom ''sort''] five_docs))) 0 = [Custom ''sort'']"
proof -
  let ?p = "Paginator_constructor plain_engine 0
              (Some (options_of (Some 2) (Some 2) None None (Some (JObject ()))))"
  let ?w = "initial_world [Custom ''sort''] five_docs :: (unit, string, document list) world"
  have fresh: "aggregation ?p < next_addr ?w"
    by (simp add: Paginator_constructor_def initial_world_def)
  from caller_pipeline_unchanged [OF fresh] fresh show ?thesis
    by (simp add: Paginator_constructor_def initial_world_def)
qed

text \<open>
  C5. In every result of paginate, prev_page_url is null exactly when the page is 1 and is
  otherwise the URL template at page - 1; next_page_url is null exactly when the page is
  last_page and is otherwise the URL template at page + 1.
\<close>

theorem prev_next_urls:
  assumes "p = Paginator_constructor c a opts" and "fst (paginate p w) = Inr r"
  shows "(prev_page_url r = None \<longleftrightarrow> current_page r = 1) \<and>
         (current_page r \<noteq> 1 \<longrightarrow>
            prev_page_url r =
              Some (url p @ ''?'' @ (if query p \<noteq> [] then query p @ ''&'' else []) @
                    ''page='' @ number_to_string (current_page r - 1))) \<and>
         (next_page_url r = None \<longleftrightarrow> current_page r = last_page r) \<and>
         (current_page r \<noteq> last_page r \<longrightarrow>
            next_page_url r =
              Some (url p @ ''?'' @ (if query p \<noteq> [] then query p @ ''&'' else []) @
                    ''page='' @ number_to_string (current_page r + 1)))"
proof -
  have cur: "current_page r = page p"
    using paginate_per_page [OF assms(2)] by simp
  have prev: "prev_page_url r = getPreviousPageUrl p"
    and nxt: "next_page_url r = getNextPageUrl p (last_page r)"
    using paginate_urls [OF assms(2)] by simp_all
  show ?thesis
    unfolding prev nxt cur getPreviousPageUrl_def getNextPageUrl_def
    by simp
qed

theorem prev_next_urls_witness:
  "fst (paginate (Paginator_constructor plain_engine 0
                    (Some (options_of (Some 2) (Some 2) (Some ''status=active'')
                             (Some ''/api/test'') None)))
          (initial_world [] five_docs)) =
     Inr \<lparr> data = [[(''n'', 3)], [(''n'', 4)]],
           first_page_url = ''/api/test?status=active&page=1'',
           last_page_url = ''/api/test?status=active&page=3'',
           next_page_url = Some ''/api/test?status=active&page=3'',
           prev_page_url = Some ''/api/test?status=active&page=1'',
           path = ''/api/test'', per_page = 2, from_index = 3, to_index = Num 4,
           total = Num 5, current_page = 2, last_page = 3 \<rparr> \<and>
   Some ''/api/test?status=active&page=1'' =
     Some (''/api/test'' @ ''?'' @ ''status=active'' @ ''&'' @ ''page='' @ number_to_string (2 - 1)) \<and>
   Some ''/api/test?status=active&page=3'' =
     Some (''/api/test'' @ ''?'' @ ''status=active'' @ ''&'' @ ''page='' @ number_to_string (2 + 1))"
proof -
  let ?p = "Paginator_constructor plain_engine 0
              (Some (options_of (Some 2) (Some 2) (Some ''status=active'')
                       (Some ''/api/test'') None))"
  let ?r = "\<lparr> data = [[(''n'', 3)], [(''n'', 4)]],
           first_page_url = ''/api/test?status=active&page=1'',
           last_page_url = ''/api/test?status=active&page=3'',
           next_page_url = Some ''/api/test?status=active&page=3'',
           prev_page_url = Some ''/api/test?status=active&page=1'',
           path = ''/api/test'', per_page = 2, from_index = 3, to_index = Num 4,
           total = Num 5, current_page = 2, last_page = 3 \<rparr>"
  have run: "fst (paginate ?p (initial_world [] five_docs)) = Inr ?r"
    by (simp add: run_defs digits.simps)
  from prev_next_urls [OF refl run] run show ?thesis
    by (simp add: constructor_url constructor_query options_of_def)
qed

text \<open>
  C6. In every result of paginate, from is 0 when the total is not positive, 1 on page 1
  and (page - 1) * limit + 1 otherwise; to is the total when the page is last_page and
  page * limit otherwise, with no clamping to the total.
\<close>

theorem page_arithmetic:
  assumes "p = Paginator_constructor c a opts" and "fst (paginate p w) = Inr r"
  shows "from_index r =
           (if gt0 (total r)
            then (if current_page r = 1 then 1 else (current_page r - 1) * per_page r + 1)
            else 0) \<and>
         to_index r =
           (if current_page r = last_page r then total r
            else Num (current_page r * per_page r)) \<and>
         current_page r = page p \<and> per_page r = limit p"
  using paginate_from_to [OF assms(2)] paginate_per_page [OF assms(2)]
  by simp

theorem page_arithmetic_witness:
  "fst (paginate (Paginator_constructor plain_engine 0
                    (Some (options_of (Some 7) (Some 2) None None None)))
          (initial_world [] five_docs)) =
     Inr \<lparr> data = [], first_page_url = ''?page=1'', last_page_url = ''?page=1'',
           next_page_url = Some ''?page=8'', prev_page_url = Some ''?page=6'',
           path = [], per_page = 2, from_index = 0, to_index = Num 14,
           total = Num 0, current_page = 7, last_page = 1 \<rparr> \<and>
   (0::int) = (if gt0 (Num 0) then (if (7::int) = 1 then 1 else (7 - 1) * 2 + 1) else 0) \<and>
   Num 14 = (if (7::int) = 1 then Num 0 else Num (7 * 2))"
proof -
  let ?p = "Paginator_constructor plain_engine 0
              (Some (options_of (Some 7) (Some 2) None None None))"
  let ?r = "\<lparr> data = [], first_page_url = ''?page=1'', last_page_url = ''?page=1'',
           next_page_url = Some ''?page=8'', prev_page_url = Some ''?page=6'',
           path = [], per_page = 2, from_index = 0, to_index = Num 14,
           total = Num 0, current_page = 7, last_page = 1 \<rparr>"
  have run: "fst (paginate ?p (initial_world [] five_docs)) = Inr ?r"
    by (simp add: run_defs digits.simps)
  from page_arithmetic [OF refl run] run show ?thesis
    by simp
qed



text \<open>
  C8, as stated, fails at zero: with page 0 and limit 5 the constructor stores page 1 and
  the skip stage is 0, not -5; with page 2 and limit 0 it stores limit 10 and the stages
  are Skip 10 and Limit 10, not Skip 0 and Limit 0.
\<close>

theorem zero_page_limit_counterexample:
  "page (Paginator_constructor plain_engine 0
           (Some (options_of (Some 0) (Some 5) None None None))) = 1 \<and>
   executed (snd (getData (Paginator_constructor plain_engine 0
                             (Some (options_of (Some 0) (Some 5) None None None)))
                    (initial_world [] five_docs))) = [[Skip 0, Limit 5]] \<and>
   [[Skip 0, Limit 5]] \<noteq> [[Skip ((0 - 1) * 5), Limit 5 :: (unit, string) stage]] \<and>
   limit (Paginator_constructor plain_engine 0
            (Some (options_of (Some 2) (Some 0) None None None))) = 10 \<and>
   executed (snd (getData (Paginator_constructor plain_engine 0
                             (Some (options_of (Some 2) (Some 0) None None None)))
                    (initial_world [] five_docs))) = [[Skip 10, Limit 10]] \<and>
   [[Skip 10, Limit 10]] \<noteq> [[Skip ((2 - 1) * 0), Limit 0 :: (unit, string) stage]]"
  by (simp add: run_defs)

text \<open>
  C8, amended. For every options bundle, absent or with any of its fields absent, and
  integer values of page and limit: the constructor stores 1 for an absent page or a page
  of 0 and 10 for an absent limit or a limit of 0 (its truthiness test), and stores every
  other value, negative ones included, as given. The data pipeline's skip stage is
  (page - 1) * limit and its limit stage is limit, for the stored values, which are the
  supplied ones when both are supplied and neither is zero.
\<close>

theorem stored_page_limit:
  assumes "p = Paginator_constructor c a opts"
  shows "page p = (case Option.bind opts PaginationOptions.page of
                     Some pg \<Rightarrow> if pg = 0 then 1 else pg | None \<Rightarrow> 1) \<and>
         limit p = (case Option.bind opts PaginationOptions.limit of
                      Some lm \<Rightarrow> if lm = 0 then 10 else lm | None \<Rightarrow> 10) \<and>
         executed (snd (getData p w)) =
           executed w @
             [arrays w a @ [Skip ((page p - 1) * limit p), Limit (limit p)] @
              (case Option.bind opts PaginationOptions.project of
                 Some t \<Rightarrow> if truthy t then [Project t] else [] | None \<Rightarrow> [])] \<and>
         (\<forall>pg lm. Option.bind opts PaginationOptions.page = Some pg \<and>
                  Option.bind opts PaginationOptions.limit = Some lm \<and>
                  pg \<noteq> 0 \<and> lm \<noteq> 0 \<longrightarrow>
            page p = pg \<and> limit p = lm \<and>
            executed (snd (getData p w)) =
              executed w @
                [arrays w a @ [Skip ((pg - 1) * lm), Limit lm] @
                 (case Option.bind opts PaginationOptions.project of
                    Some t \<Rightarrow> if truthy t then [Project t] else [] | None \<Rightarrow> [])])"
proof -
  have pg: "page p = (case Option.bind opts PaginationOptions.page of
                        Some pg \<Rightarrow> if pg = 0 then 1 else pg | None \<Rightarrow> 1)"
    using assms by (simp add: Paginator_constructor_def split: option.splits)
  have lm: "limit p = (case Option.bind opts PaginationOptions.limit of
                         Some lm \<Rightarrow> if lm = 0 then 10 else lm | None \<Rightarrow> 10)"
    using assms by (simp add: Paginator_constructor_def split: option.splits)
  have ag: "aggregation p = a" and op: "options p = opts"
    using assms by (simp_all add: Paginator_constructor_def)
  have ex: "executed (snd (getData p w)) =
           executed w @
             [arrays w a @ [Skip ((page p - 1) * limit p), Limit (limit p)] @
              (case Option.bind opts PaginationOptions.project of
                 Some t \<Rightarrow> if truthy t then [Project t] else [] | None \<Rightarrow> [])]"
    by (simp add: getData_executed ag op)
  have given: "page p = pg' \<and> limit p = lm' \<and>
            executed (snd (getData p w)) =
              executed w @
                [arrays w a @ [Skip ((pg' - 1) * lm'), Limit lm'] @
                 (case Option.bind opts PaginationOptions.project of
                    Some t \<Rightarrow> if truthy t then [Project t] else [] | None \<Rightarrow> [])]"
    if "Option.bind opts PaginationOptions.page = Some pg'"
      and "Option.bind opts PaginationOptions.limit = Some lm'"
      and "pg' \<noteq> 0" and "lm' \<noteq> 0" for pg' lm'
  proof -
    have "page p = pg'" and "limit p = lm'"
      using pg lm that by simp_all
    then show ?thesis
      using ex by simp
  qed
  from pg lm ex given show ?thesis
    by blast
qed

theorem stored_page_limit_witness:
  "Option.bind (Some (options_of (Some (- 1)) (Some (- 3)) None None None
                        :: unit PaginationOptions)) PaginationOptions.page = Some (- 1) \<and>
   Option.bind (Some (options_of (Some (- 1)) (Some (- 3)) None None None
                        :: unit PaginationOptions)) PaginationOptions.limit = Some (- 3) \<and>
   page (Paginator_constructor plain_engine 0
           (Some (options_of (Some (- 1)) (Some (- 3)) None None None))) = - 1 \<and>
   limit (Paginator_constructor plain_engine 0
            (Some (options_of (Some (- 1)) (Some (- 3)) None None None))) = - 3 \<and>
   executed (snd (getData (Paginator_constructor plain_engine 0
                             (Some (options_of (Some (- 1)) (Some (- 3)) None None None)))
                    (initial_world [Custom ''match''] five_docs))) =
     [[Custom ''match'', Skip 6, Limit (- 3)]] \<and>
   page (Paginator_constructor plain_engine 0
           (Some (options_of (Some (- 2)) None None None None))) = - 2 \<and>
   limit (Paginator_constructor plain_engine 0
            (Some (options_of (Some (- 2)) None None None None))) = 10 \<and>
   page (Paginator_constructor plain_engine 0 None) = 1 \<and>
   limit (Paginator_constructor plain_engine 0 None) = 10"
proof -
  let ?o = "options_of (Some (- 1)) (Some (- 3)) None None None :: unit PaginationOptions"
  let ?o2 = "options_of (Some (- 2)) None None None None :: unit PaginationOptions"
  let ?w = "initial_world [Custom ''match''] five_docs :: (unit, string, document list) world"
  have pg: "Option.bind (Some ?o) PaginationOptions.page = Some (- 1)"
    and lm: "Option.bind (Some ?o) PaginationOptions.limit = Some (- 3)"
    by (simp_all add: options_of_def)
  have nz: "(- 1 :: int) \<noteq> 0" "(- 3 :: int) \<noteq> 0"
    by simp_all
  note claim = stored_page_limit [where c = plain_engine and a = 0 and opts = "Some ?o"
      and w = ?w, OF refl]
  note given = claim [THEN conjunct2, THEN conjunct2, THEN conjunct2, rule_format,
      of "- 1" "- 3"]
  have supplied: "page (Paginator_constructor plain_engine 0 (Some ?o)) = - 1 \<and>
        limit (Paginator_constructor plain_engine 0 (Some ?o)) = - 3 \<and>
        executed (snd (getData (Paginator_constructor plain_engine 0 (Some ?o)) ?w)) =
          [[Custom ''match'', Skip 6, Limit (- 3)]]"
    using given pg lm nz by (simp add: options_of_def initial_world_def)
  note claim2 = stored_page_limit [where c = plain_engine and a = 0 and opts = "Some ?o2"
      and w = ?w, OF refl]
  have page_only: "page (Paginator_constructor plain_engine 0 (Some ?o2)) = - 2 \<and>
        limit (Paginator_constructor plain_engine 0 (Some ?o2)) = 10"
    using claim2 [THEN conjunct1] claim2 [THEN conjunct2, THEN conjunct1]
    by (simp add: options_of_def)
  note claim3 = stored_page_limit [where c = plain_engine and a = 0 and opts = None
      and w = ?w, OF refl]
  have absent: "page (Paginator_constructor plain_engine 0 None) = 1 \<and>
        limit (Paginator_constructor plain_engine 0 None) = 10"
    using claim3 [THEN conjunct1] claim3 [THEN conjunct2, THEN conjunct1]
    by simp
  from pg lm supplied page_only absent show ?thesis
    by blast
qed

text \<open>
  C9, as stated, fails for a collection that ignores the limit, such as the mock of the
  test suite: the data of the result is whatever the data query answers.
\<close>

theorem data_longer_than_limit_counterexample:
  "fst (paginate (Paginator_constructor (mockCollection :: (unit, string, _) Collection) 0
                    (Some (options_of (Some 1) (Some 1) None None None)))
          (initial_world []
             [Inr [[(''n'', 1)], [(''n'', 2)]], Inr [[(''totalCount'', 2)]]])) =
     Inr \<lparr> data = [[(''n'', 1)], [(''n'', 2)]], first_page_url = ''?page=1'',
           last_page_url = ''?page=2'', next_page_url = Some ''?page=2'',
           prev_page_url = None, path = [], per_page = 1, from_index = 1,
           to_index = Num 1, total = Num 2, current_page = 1, last_page = 2 \<rparr> \<and>
   \<not> int (length [[(''n'', 1)], [(''n'', 2 :: int)]]) \<le> 1"
  by (simp add: run_defs digits.simps)

text \<open>
  C9, amended. For every collection that honours the limit and every paginator with a
  limit of at least one, the data of the result has at most limit documents.
\<close>

theorem data_within_limit:
  assumes "honours_limit (collection p)" and "1 \<le> limit p"
    and "fst (paginate p w) = Inr r"
  shows "int (length (data r)) \<le> limit p"
proof -
  let ?stages = "arrays w (aggregation p) @ [Skip ((page p - 1) * limit p)]"
  have dat: "fst (getData p w) = Inr (data r)"
    using assms(3)
    by (auto simp: paginate_def Let_def split: prod.splits sum.splits if_splits)
  have answer:
    "fst (collection p (db w)
            (?stages @ [Limit (limit p)] @
             (case Option.bind (options p) PaginationOptions.project of
                Some t \<Rightarrow> if truthy t then [Project t] else [] | None \<Rightarrow> []))) =
       Inr (data r)"
    using dat by (simp add: getData_fst)
  have plain: "int (length (data r)) \<le> limit p"
    if "fst (collection p (db w) (?stages @ [Limit (limit p)])) = Inr (data r)"
  proof -
    from that have "collection p (db w) (?stages @ [Limit (limit p)]) =
                 (Inr (data r), snd (collection p (db w) (?stages @ [Limit (limit p)])))"
      by (simp add: prod_eq_iff)
    with assms(1,2) show ?thesis
      unfolding honours_limit_def by blast
  qed
  have projected: "int (length (data r)) \<le> limit p"
    if "fst (collection p (db w) (?stages @ [Limit (limit p), Project t])) = Inr (data r)"
    for t
  proof -
    from that have "collection p (db w) (?stages @ [Limit (limit p), Project t]) =
                 (Inr (data r),
                  snd (collection p (db w) (?stages @ [Limit (limit p), Project t])))"
      by (simp add: prod_eq_iff)
    with assms(1,2) show ?thesis
      unfolding honours_limit_def by blast
  qed
  show ?thesis
  proof (cases "Option.bind (options p) PaginationOptions.project")
    case None
    then show ?thesis
      using answer plain by simp
  next
    case (Some t)
    show ?thesis
    proof (cases "truthy t")
      case True
      then show ?thesis
        using Some answer projected [of t] by simp
    next
      case False
      then show ?thesis
        using Some answer plain by simp
    qed
  qed
qed

theorem data_within_limit_witness:
  "honours_limit plain_engine \<and>
   fst (paginate (Paginator_constructor plain_engine 0
                    (Some (options_of (Some 3) (Some 2) None None (Some (JObject ())))))
          (initial_world [] five_docs)) =
     Inr \<lparr> data = [[(''n'', 5)]], first_page_url = ''?page=1'',
           last_page_url = ''?page=3'', next_page_url = None,
           prev_page_url = Some ''?page=2'', path = [], per_page = 2, from_index = 5,
           to_index = Num 5, total = Num 5, current_page = 3, last_page = 3 \<rparr> \<and>
   int (length [[(''n'', 5 :: int)]]) \<le> 2"
proof -
  let ?p = "Paginator_constructor plain_engine 0
              (Some (options_of (Some 3) (Some 2) None None (Some (JObject ()))))"
  let ?r = "\<lparr> data = [[(''n'', 5)]], first_page_url = ''?page=1'',
           last_page_url = ''?page=3'', next_page_url = None,
           prev_page_url = Some ''?page=2'', path = [], per_page = 2, from_index = 5,
           to_index = Num 5, total = Num 5, current_page = 3, last_page = 3 \<rparr>"
  have hon: "honours_limit plain_engine"
    unfolding plain_engine_def by (rule engine_honours_limit)
  have hon': "honours_limit (collection ?p)"
    using hon by (simp add: Paginator_constructor_def)
  have lim: "1 \<le> limit ?p"
    by (simp add: Paginator_constructor_def options_of_def)
  have run: "fst (paginate ?p (initial_world [] five_docs)) = Inr ?r"
    by (simp add: run_defs digits.simps)
  have "int (length (data ?r)) \<le> limit ?p"
    using hon' lim run by (rule data_within_limit)
  then have "int (length [[(''n'', 5 :: int)]]) \<le> 2"
    by (simp add: Paginator_constructor_def options_of_def)
  with hon run show ?thesis
    by blast
qed




end
